theory Spec2Isabelle
  imports Main "HOL-Library.Code_Target_Nat"
begin

section \<open>The gateway client of clawd-monitor\<close>

text \<open>
  The development embeds the class \<open>GatewayClient\<close> (the gateway module of the main
  process) together with the pieces of its run-time environment that its callbacks
  observe: the WebSocket objects it creates, the promises returned by \<open>call\<close>, the
  armed timers of the event loop, the notifications it emits and the console.

  Every callback runs to completion, so each one is a function from client state to
  client state. The environment (the \<open>ws\<close> library, the timer queue, the application
  calling the public methods) is a datatype of inputs, and \<open>step\<close> runs the callback
  that belongs to an input.
\<close>

subsection \<open>Values on the wire\<close>

text \<open>
  The result of \<open>JSON.parse\<close>, and the values the client puts into outbound messages.
  \<open>JUndefined\<close> is what a property read gives for an absent property.
\<close>

datatype json =
    JUndefined
  | JNull
  | JBool bool
  | JNum int
  | JStr string
  | JArr "json list"
  | JObj "(string \<times> json) list"

text \<open>
  A property read \<open>v.k\<close> on a value that is neither \<open>null\<close> nor \<open>undefined\<close>. Of
  duplicate keys in a JSON text the last one wins. Only the envelope's keys are ever
  read, and no string, number, boolean or array has one of them.
\<close>

fun field :: "json \<Rightarrow> string \<Rightarrow> json" where
  "field (JObj kvs) k = (case map_of (rev kvs) k of Some v \<Rightarrow> v | None \<Rightarrow> JUndefined)"
| "field _ k = JUndefined"

text \<open>JavaScript truthiness, as used by \<open>if (x)\<close>, \<open>x || y\<close> and \<open>x ? y : z\<close>.\<close>

fun truthy :: "json \<Rightarrow> bool" where
  "truthy JUndefined = False"
| "truthy JNull = False"
| "truthy (JBool b) = b"
| "truthy (JNum n) = (n \<noteq> 0)"
| "truthy (JStr s) = (s \<noteq> [])"
| "truthy (JArr _) = True"
| "truthy (JObj _) = True"

text \<open>\<open>a || b\<close>\<close>

definition js_or :: "json \<Rightarrow> json \<Rightarrow> json" where
  "js_or a b = (if truthy a then a else b)"

text \<open>\<open>v?.k\<close>: \<open>undefined\<close> when \<open>v\<close> is \<open>null\<close> or \<open>undefined\<close>.\<close>

definition opt_field :: "json \<Rightarrow> string \<Rightarrow> json" where
  "opt_field v k = (if v = JNull \<or> v = JUndefined then JUndefined else field v k)"

text \<open>
  What a \<open>message\<close> callback receives: a buffer that \<open>JSON.parse\<close> rejects, or one it
  parses to a value.
\<close>

datatype buffer = NotJson | Json json

text \<open>
  JavaScript errors: the two the callbacks can catch, \<open>new Error(msg)\<close>, and
  \<open>new Error(JSON.stringify(v))\<close>, kept as the value it was rendered from.
\<close>

datatype js_error = SyntaxError | TypeError | Error string | ErrorOfJson json

text \<open>
  The head of both \<open>message\<close> callbacks: \<open>JSON.parse(data.toString())\<close> followed by
  the first property read of the result, inside \<open>try\<close>. \<open>JSON.parse\<close> throws on a
  malformed buffer, and the property read throws on \<open>null\<close>; \<open>Inl\<close> is the error that
  the \<open>catch\<close> receives.
\<close>

definition parse_message :: "buffer \<Rightarrow> js_error + json" where
  "parse_message data =
     (case data of
        NotJson \<Rightarrow> Inl SyntaxError
      | Json v \<Rightarrow> if v = JNull \<or> v = JUndefined then Inl TypeError else Inr v)"

subsection \<open>Correlation ids\<close>

text \<open>
  \<open>requestId++\<close> on a JavaScript number: exact up to \<open>2 ^ 53\<close>, where adding one no
  longer changes the value.
\<close>

definition post_incr :: "nat \<Rightarrow> nat" where
  "post_incr n = (if n < 2 ^ 53 then n + 1 else n)"

text \<open>The decimal rendering of a counter value inside a template literal.\<close>

fun dec :: "nat \<Rightarrow> string" where
  "dec n = (if n < 10 then [''0123456789'' ! n]
            else dec (n div 10) @ [''0123456789'' ! (n mod 10)])"

declare dec.simps [simp del]

definition req_name :: "nat \<Rightarrow> string" where
  "req_name n = ''req-'' @ dec n"

definition call_name :: "nat \<Rightarrow> string" where
  "call_name n = ''call-'' @ dec n"

subsection \<open>The environment's objects\<close>

datatype ready_state = CONNECTING | OPEN | CLOSING | CLOSED

text \<open>
  The listeners of a socket's \<open>message\<close> event: the one \<open>connect\<close> registers, and the
  one \<open>call\<close> registers for the promise with the given index.
\<close>

datatype handler = MainHandler | CallHandler nat

record socket =
  target :: string
  readyState :: ready_state
  listeners :: "handler list"
  sent :: "json list"

datatype promise = Pending | Resolved json | Rejected js_error

text \<open>
  One invocation of \<open>call\<close>: the \<open>id\<close> of its closure (none on the path that rejects
  before allocating one) and the state of the promise it returned.
\<close>

record call_frame =
  call_id :: "string option"
  outcome :: promise

text \<open>
  The callback of an armed timer: the one \<open>scheduleReconnect\<close> passes to
  \<open>setTimeout\<close>, and the one \<open>call\<close> passes for the promise with the given index.
\<close>

datatype callback = Reconnect | CallTimeout nat

record gateway_event =
  ev_type :: json
  ev_payload :: json
  ev_seq :: json
  ev_stateVersion :: json
  ev_timestamp :: nat

datatype emit_arg = NoArg | EventArg gateway_event | ErrorArg js_error

text \<open>\<open>this.emit(channel, arg)\<close>\<close>

datatype emission = Emit json emit_arg

datatype log_entry =
    Log string "json list"
  | LogError string json
  | LogException string js_error

subsection \<open>The client\<close>

text \<open>
  The fields of the class, the module's \<open>requestId\<close>, \<open>process.platform\<close>, and the
  environment: every socket created so far (\<open>ws\<close> holds an index into them), every
  call made so far, the armed timers (handle, callback, delay in milliseconds), the
  source of timer handles, and what has been emitted and logged.
\<close>

record client =
  ws :: "nat option"
  url :: string
  reconnectTimer :: "nat option"
  reconnectDelay :: nat
  connected :: bool
  token :: "string option"
  requestId :: nat
  platform :: string
  sockets :: "socket list"
  calls :: "call_frame list"
  timers :: "(nat \<times> callback \<times> nat) list"
  timerSeq :: nat
  emitted :: "emission list"
  console :: "log_entry list"

definition GatewayClient :: "string \<Rightarrow> string option \<Rightarrow> string \<Rightarrow> client" where
  "GatewayClient u t p =
     \<lparr> ws = None, url = u, reconnectTimer = None, reconnectDelay = 2000,
       connected = False, token = t, requestId = 0, platform = p,
       sockets = [], calls = [], timers = [], timerSeq = 0, emitted = [], console = [] \<rparr>"

definition default_url :: string where
  "default_url = ''ws://127.0.0.1:18789''"

subsection \<open>What the client uses of its environment\<close>

definition console_log :: "client \<Rightarrow> string \<Rightarrow> json list \<Rightarrow> client" where
  "console_log s msg args = s\<lparr>console := console s @ [Log msg args]\<rparr>"

definition console_error :: "client \<Rightarrow> string \<Rightarrow> json \<Rightarrow> client" where
  "console_error s msg v = s\<lparr>console := console s @ [LogError msg v]\<rparr>"

definition console_error_exn :: "client \<Rightarrow> string \<Rightarrow> js_error \<Rightarrow> client" where
  "console_error_exn s msg e = s\<lparr>console := console s @ [LogException msg e]\<rparr>"

definition emit :: "client \<Rightarrow> json \<Rightarrow> emit_arg \<Rightarrow> client" where
  "emit s channel arg = s\<lparr>emitted := emitted s @ [Emit channel arg]\<rparr>"

definition socket_at :: "client \<Rightarrow> nat \<Rightarrow> socket option" where
  "socket_at s i = (if i < length (sockets s) then Some (sockets s ! i) else None)"

definition map_socket :: "nat \<Rightarrow> (socket \<Rightarrow> socket) \<Rightarrow> client \<Rightarrow> client" where
  "map_socket i f s =
     (if i < length (sockets s) then s\<lparr>sockets := (sockets s)[i := f (sockets s ! i)]\<rparr> else s)"

text \<open>\<open>new WebSocket(url)\<close>\<close>

definition new_socket :: "string \<Rightarrow> socket" where
  "new_socket u = \<lparr> target = u, readyState = CONNECTING, listeners = [], sent = [] \<rparr>"

text \<open>\<open>socket.send(JSON.stringify(message))\<close>; the message is kept as the value sent.\<close>

definition sock_send :: "nat \<Rightarrow> json \<Rightarrow> client \<Rightarrow> client" where
  "sock_send i message = map_socket i (\<lambda>k. k\<lparr>sent := sent k @ [message]\<rparr>)"

text \<open>
  \<open>socket.close()\<close>: a closed socket stays closed, any other one is closing until
  its \<open>close\<close> event.
\<close>

definition sock_close :: "nat \<Rightarrow> client \<Rightarrow> client" where
  "sock_close i =
     map_socket i (\<lambda>k. if readyState k = CLOSED then k else k\<lparr>readyState := CLOSING\<rparr>)"

text \<open>\<open>socket.on('message', h)\<close>\<close>

definition sock_on :: "nat \<Rightarrow> handler \<Rightarrow> client \<Rightarrow> client" where
  "sock_on i h = map_socket i (\<lambda>k. k\<lparr>listeners := listeners k @ [h]\<rparr>)"

text \<open>\<open>socket.off('message', h)\<close> removes the most recently added instance of \<open>h\<close>.\<close>

definition sock_off :: "nat \<Rightarrow> handler \<Rightarrow> client \<Rightarrow> client" where
  "sock_off i h = map_socket i (\<lambda>k. k\<lparr>listeners := rev (remove1 h (rev (listeners k)))\<rparr>)"

text \<open>\<open>setTimeout(cb, delay)\<close>; the handle it returns is \<open>timerSeq\<close> of the state before.\<close>

definition set_timeout :: "client \<Rightarrow> callback \<Rightarrow> nat \<Rightarrow> client" where
  "set_timeout s cb delay =
     s\<lparr>timers := timers s @ [(timerSeq s, cb, delay)], timerSeq := timerSeq s + 1\<rparr>"

text \<open>\<open>clearTimeout(h)\<close>\<close>

definition clear_timeout :: "client \<Rightarrow> nat \<Rightarrow> client" where
  "clear_timeout s h = s\<lparr>timers := filter (\<lambda>t. fst t \<noteq> h) (timers s)\<rparr>"

text \<open>
  \<open>resolve(v)\<close> and \<open>reject(e)\<close> of the promise with index \<open>k\<close>: a promise that is
  already settled ignores them.
\<close>

definition settle :: "client \<Rightarrow> nat \<Rightarrow> promise \<Rightarrow> client" where
  "settle s k v =
     (if k < length (calls s) \<and> outcome (calls s ! k) = Pending
      then s\<lparr>calls := (calls s)[k := (calls s ! k)\<lparr>outcome := v\<rparr>]\<rparr>
      else s)"

subsection \<open>The methods of the class\<close>

text \<open>\<open>this.ws?.readyState === WebSocket.OPEN\<close>\<close>

definition ws_is_open :: "client \<Rightarrow> bool" where
  "ws_is_open s =
     (case ws s of None \<Rightarrow> False
      | Some i \<Rightarrow> (case socket_at s i of None \<Rightarrow> False | Some k \<Rightarrow> readyState k = OPEN))"

text \<open>\<open>this.ws?.close()\<close>, \<open>this.ws!.on\<close>, \<open>this.ws?.off\<close> and \<open>this.ws.send\<close>\<close>

definition ws_close :: "client \<Rightarrow> client" where
  "ws_close s = (case ws s of None \<Rightarrow> s | Some i \<Rightarrow> sock_close i s)"

definition ws_on :: "client \<Rightarrow> handler \<Rightarrow> client" where
  "ws_on s h = (case ws s of None \<Rightarrow> s | Some i \<Rightarrow> sock_on i h s)"

definition ws_off :: "client \<Rightarrow> handler \<Rightarrow> client" where
  "ws_off s h = (case ws s of None \<Rightarrow> s | Some i \<Rightarrow> sock_off i h s)"

definition ws_send :: "client \<Rightarrow> json \<Rightarrow> client" where
  "ws_send s message = (case ws s of None \<Rightarrow> s | Some i \<Rightarrow> sock_send i message s)"

definition request :: "string \<Rightarrow> string \<Rightarrow> json \<Rightarrow> json" where
  "request ident meth params =
     JObj [(''type'', JStr ''req''), (''id'', JStr ident), (''method'', JStr meth),
           (''params'', params)]"

definition sendRequest :: "client \<Rightarrow> string \<Rightarrow> json \<Rightarrow> client" where
  "sendRequest s meth params =
     (if ws_is_open s then
        (let ident = req_name (requestId s);
             s1 = s\<lparr>requestId := post_incr (requestId s)\<rparr>
         in ws_send s1 (request ident meth params))
      else s)"

definition scheduleReconnect :: "client \<Rightarrow> client" where
  "scheduleReconnect s =
     (case reconnectTimer s of
        Some h \<Rightarrow> s
      | None \<Rightarrow> (set_timeout s Reconnect (reconnectDelay s))\<lparr>reconnectTimer := Some (timerSeq s)\<rparr>)"

text \<open>The parameters of the handshake request, built from the challenge's payload.\<close>

definition connect_params :: "client \<Rightarrow> json \<Rightarrow> json" where
  "connect_params s challenge =
     JObj [(''minProtocol'', JNum 3),
           (''maxProtocol'', JNum 3),
           (''client'', JObj [(''id'', JStr ''clawd-monitor''),
                              (''displayName'', JStr ''Clawd Monitor''),
                              (''version'', JStr ''1.0.0''),
                              (''platform'', JStr (platform s)),
                              (''mode'', JStr ''operator'')]),
           (''role'', JStr ''operator''),
           (''scopes'', JArr [JStr ''operator.read'', JStr ''operator.write'']),
           (''caps'', JArr []),
           (''commands'', JArr []),
           (''auth'', (case token s of
                         None \<Rightarrow> JUndefined
                       | Some t \<Rightarrow> if t \<noteq> [] then JObj [(''token'', JStr t)] else JUndefined)),
           (''device'', JObj [(''nonce'', js_or (opt_field challenge ''nonce'') (JStr []))]),
           (''locale'', JStr ''en-US''),
           (''userAgent'', JStr ''clawd-monitor/1.0.0'')]"

text \<open>The three short callbacks \<open>connect\<close> registers on a new socket.\<close>

definition on_open :: "client \<Rightarrow> client" where
  "on_open s = console_log s ''Gateway WebSocket connected, waiting for challenge...'' []"

definition on_error :: "client \<Rightarrow> js_error \<Rightarrow> client" where
  "on_error s err = emit (console_error_exn s ''Gateway error:'' err) (JStr ''error'') (ErrorArg err)"

definition on_close :: "client \<Rightarrow> client" where
  "on_close s =
     scheduleReconnect
       (emit ((console_log s ''Gateway disconnected'' [])\<lparr>connected := False\<rparr>)
          (JStr ''disconnected'') NoArg)"

text \<open>
  The \<open>message\<close> callback \<open>connect\<close> registers. \<open>now\<close> is the value of
  \<open>Date.now()\<close>.
\<close>

definition on_message :: "client \<Rightarrow> buffer \<Rightarrow> nat \<Rightarrow> client" where
  "on_message s data now =
     (case parse_message data of
        Inl err \<Rightarrow> console_error_exn s ''Failed to parse Gateway message:'' err
      | Inr message \<Rightarrow>
          let s1 = console_log s ''Gateway message:''
                     [field message ''type'',
                      js_or (field message ''event'') (field message ''method'')]
          in
          if field message ''type'' = JStr ''event'' then
            if field message ''event'' = JStr ''connect.challenge'' then
              sendRequest (console_log s1 ''Received challenge, sending connect with nonce...'' [])
                ''connect'' (connect_params s1 (field message ''payload''))
            else
              let name = js_or (field message ''event'') (JStr ''unknown'');
                  event = \<lparr> ev_type = name,
                            ev_payload = field message ''payload'',
                            ev_seq = field message ''seq'',
                            ev_stateVersion = field message ''stateVersion'',
                            ev_timestamp = now \<rparr>
              in emit (emit s1 (JStr ''message'') (EventArg event)) name (EventArg event)
          else if field message ''type'' = JStr ''res'' then
            if field message ''method'' = JStr ''connect'' then
              if truthy (field message ''ok'') then
                emit ((console_log s1 ''Gateway handshake successful'' [])\<lparr>connected := True\<rparr>)
                  (JStr ''connected'') NoArg
              else
                ws_close (console_error s1 ''Gateway handshake failed:'' (field message ''error''))
            else s1
          else s1)"

definition connect :: "client \<Rightarrow> client" where
  "connect s =
     (if ws_is_open s then s
      else s\<lparr>sockets := sockets s @ [(new_socket (url s))\<lparr>listeners := [MainHandler]\<rparr>],
             ws := Some (length (sockets s))\<rparr>)"

definition disconnect :: "client \<Rightarrow> client" where
  "disconnect s =
     (let s1 = (case reconnectTimer s of
                  None \<Rightarrow> s
                | Some h \<Rightarrow> (clear_timeout s h)\<lparr>reconnectTimer := None\<rparr>);
          s2 = (case ws s1 of
                  None \<Rightarrow> s1
                | Some i \<Rightarrow> (sock_close i s1)\<lparr>ws := None\<rparr>)
      in s2\<lparr>connected := False\<rparr>)"

definition isConnected :: "client \<Rightarrow> bool" where
  "isConnected s = (connected s \<and> ws_is_open s)"

text \<open>
  The \<open>message\<close> callback of the call with index \<open>k\<close>. It reads \<open>id\<close>, \<open>resolve\<close>
  and \<open>reject\<close> from the call's closure, and \<open>this.ws\<close> from the client as it is
  when the callback runs.
\<close>

definition call_handler :: "client \<Rightarrow> nat \<Rightarrow> buffer \<Rightarrow> client" where
  "call_handler s k data =
     (case (if k < length (calls s) then call_id (calls s ! k) else None) of
        None \<Rightarrow> s
      | Some ident \<Rightarrow>
          (case parse_message data of
             Inl err \<Rightarrow> settle (ws_off s (CallHandler k)) k (Rejected err)
           | Inr response \<Rightarrow>
               if field response ''type'' = JStr ''res'' \<and> field response ''id'' = JStr ident
               then
                 (let s1 = ws_off s (CallHandler k)
                  in if truthy (field response ''ok'')
                     then settle s1 k (Resolved (field response ''payload''))
                     else settle s1 k (Rejected (ErrorOfJson (field response ''error''))))
               else s))"

text \<open>
  \<open>call(method, params)\<close>. The promise it returns is the one with index
  \<open>length (calls s)\<close>.
\<close>

definition call :: "client \<Rightarrow> string \<Rightarrow> json \<Rightarrow> client" where
  "call s meth params =
     (if \<not> isConnected s then
        s\<lparr>calls := calls s @
               [\<lparr> call_id = None, outcome = Rejected (Error ''Not connected to Gateway'') \<rparr>]\<rparr>
      else
        (let k = length (calls s);
             ident = call_name (requestId s);
             s1 = s\<lparr>requestId := post_incr (requestId s),
                    calls := calls s @ [\<lparr> call_id = Some ident, outcome = Pending \<rparr>]\<rparr>;
             s2 = ws_on s1 (CallHandler k);
             s3 = ws_send s2 (request ident meth params)
         in set_timeout s3 (CallTimeout k) 30000))"

text \<open>The two timer callbacks.\<close>

definition call_timeout :: "client \<Rightarrow> nat \<Rightarrow> client" where
  "call_timeout s k =
     settle (ws_off s (CallHandler k)) k (Rejected (Error ''Gateway call timeout''))"

definition reconnect_fires :: "client \<Rightarrow> client" where
  "reconnect_fires s = connect (console_log s ''Attempting to reconnect to Gateway...'' [])"

subsection \<open>The reactive loop\<close>

text \<open>
  What can happen to the client: the application calls a public method, the \<open>ws\<close>
  library raises an event on one of the sockets, or an armed timer fires. An input that
  cannot occur in a state (an event on a socket that does not exist, \<open>open\<close> on a
  socket that is not connecting, a message or \<open>close\<close> on a closed socket, a timer that
  is not armed) leaves the state as it is.

  Emitting \<open>message\<close> calls the listeners that were registered when the event was
  raised, in the order of their registration.
\<close>

datatype input =
    ApiConnect
  | ApiDisconnect
  | ApiCall string json
  | WsOpen nat
  | WsMessage nat buffer nat
  | WsError nat js_error
  | WsClose nat
  | TimerFires nat

definition run_handler :: "buffer \<Rightarrow> nat \<Rightarrow> client \<Rightarrow> handler \<Rightarrow> client" where
  "run_handler data now s h =
     (case h of MainHandler \<Rightarrow> on_message s data now | CallHandler k \<Rightarrow> call_handler s k data)"

definition deliver :: "client \<Rightarrow> nat \<Rightarrow> buffer \<Rightarrow> nat \<Rightarrow> client" where
  "deliver s i data now =
     (case socket_at s i of
        None \<Rightarrow> s
      | Some k \<Rightarrow>
          if readyState k = OPEN \<or> readyState k = CLOSING
          then foldl (run_handler data now) s (listeners k)
          else s)"

definition run_callback :: "client \<Rightarrow> callback \<Rightarrow> client" where
  "run_callback s cb = (case cb of Reconnect \<Rightarrow> reconnect_fires s | CallTimeout k \<Rightarrow> call_timeout s k)"

fun step :: "client \<Rightarrow> input \<Rightarrow> client" where
  "step s ApiConnect = connect s"
| "step s ApiDisconnect = disconnect s"
| "step s (ApiCall meth params) = call s meth params"
| "step s (WsOpen i) =
     (case socket_at s i of
        None \<Rightarrow> s
      | Some k \<Rightarrow>
          if readyState k = CONNECTING
          then on_open (map_socket i (\<lambda>k. k\<lparr>readyState := OPEN\<rparr>) s)
          else s)"
| "step s (WsMessage i data now) = deliver s i data now"
| "step s (WsError i err) = (if i < length (sockets s) then on_error s err else s)"
| "step s (WsClose i) =
     (case socket_at s i of
        None \<Rightarrow> s
      | Some k \<Rightarrow>
          if readyState k \<noteq> CLOSED
          then on_close (map_socket i (\<lambda>k. k\<lparr>readyState := CLOSED\<rparr>) s)
          else s)"
| "step s (TimerFires h) =
     (case find (\<lambda>t. fst t = h) (timers s) of
        None \<Rightarrow> s
      | Some t \<Rightarrow> run_callback (clear_timeout s h) (fst (snd t)))"

definition run :: "client \<Rightarrow> input list \<Rightarrow> client" where
  "run s ins = foldl step s ins"

subsection \<open>Scenarios\<close>

text \<open>
  A client with the default endpoint and no token, the messages of a handshake, and the
  inputs that bring the client to the state in which calls are accepted: the socket
  opens, the gateway sends its challenge and accepts the \<open>connect\<close> request.
\<close>

definition client0 :: client where
  "client0 = GatewayClient default_url None ''linux''"

definition challenge :: "string \<Rightarrow> json" where
  "challenge n =
     JObj [(''type'', JStr ''event''), (''event'', JStr ''connect.challenge''),
           (''payload'', JObj [(''nonce'', JStr n)])]"

definition connect_res :: "bool \<Rightarrow> json \<Rightarrow> json" where
  "connect_res b e =
     JObj [(''type'', JStr ''res''), (''method'', JStr ''connect''), (''ok'', JBool b),
           (''error'', e)]"


definition handshake :: "input list" where
  "handshake =
     [ApiConnect, WsOpen 0, WsMessage 0 (Json (challenge ''abc'')) 1,
      WsMessage 0 (Json (connect_res True JUndefined)) 2]"


subsection \<open>Observations\<close>

text \<open>
  What a collaborator can see of the transport side of the client: which socket is
  current, the connected flag, the state of every socket and what was sent on it, the
  notifications, the armed timers, the reconnect handle and the request counter.
\<close>

definition transport_view ::
  "client \<Rightarrow> nat option \<times> bool \<times> ready_state list \<times> json list list \<times> emission list \<times>
     (nat \<times> callback \<times> nat) list \<times> nat option \<times> nat" where
  "transport_view s =
     (ws s, connected s, map readyState (sockets s), map sent (sockets s), emitted s,
      timers s, reconnectTimer s, requestId s)"

subsection \<open>What a message does to a call\<close>

text \<open>
  The settlement that the per-call callback of a call with correlation id \<open>ident\<close>
  gives its promise on a buffer, if any: the branches of the callback, read off as a
  function of the buffer alone.
\<close>

definition reply_outcome :: "buffer \<Rightarrow> string \<Rightarrow> promise option" where
  "reply_outcome data ident =
     (case parse_message data of
        Inl err \<Rightarrow> Some (Rejected err)
      | Inr response \<Rightarrow>
          if field response ''type'' = JStr ''res'' \<and> field response ''id'' = JStr ident
          then Some (if truthy (field response ''ok'')
                     then Resolved (field response ''payload'')
                     else Rejected (ErrorOfJson (field response ''error'')))
          else None)"

text \<open>
  Two lists of calls, before and after the delivery of a buffer: the same calls, each
  either untouched or pending before and settled as its own callback settles it.
\<close>

definition settled_by :: "buffer \<Rightarrow> call_frame list \<Rightarrow> call_frame list \<Rightarrow> bool" where
  "settled_by data cs cs' \<longleftrightarrow>
     length cs' = length cs \<and>
     (\<forall>k<length cs.
        cs' ! k = cs ! k \<or>
        (outcome (cs ! k) = Pending \<and>
         (\<exists>ident v. call_id (cs ! k) = Some ident \<and> reply_outcome data ident = Some v \<and>
            cs' ! k = (cs ! k)\<lparr>outcome := v\<rparr>)))"

text \<open>
  Two clients, before and after the delivery of a buffer: the timers and the current
  socket are the same, the request counter has not gone down, the calls are settled by
  the buffer, and every socket has kept or lost listeners, never gained one.
\<close>

definition evolves :: "buffer \<Rightarrow> client \<Rightarrow> client \<Rightarrow> bool" where
  "evolves data s s' \<longleftrightarrow>
     timers s' = timers s \<and> timerSeq s' = timerSeq s \<and> reconnectTimer s' = reconnectTimer s \<and>
     ws s' = ws s \<and> requestId s \<le> requestId s' \<and>
     settled_by data (calls s) (calls s') \<and>
     length (sockets s') = length (sockets s) \<and>
     (\<forall>j<length (sockets s).
        set (listeners (sockets s' ! j)) \<subseteq> set (listeners (sockets s ! j)) \<and>
        (distinct (listeners (sockets s ! j)) \<longrightarrow> distinct (listeners (sockets s' ! j))))"

subsection \<open>Well-formed clients\<close>






section \<open>Properties\<close>

subsection \<open>Reading a client through the environment's operations\<close>

lemmas env_defs =
  console_log_def console_error_def console_error_exn_def emit_def socket_at_def
  map_socket_def new_socket_def sock_send_def sock_close_def sock_on_def sock_off_def
  set_timeout_def clear_timeout_def settle_def

lemmas ws_defs = ws_is_open_def ws_close_def ws_on_def ws_off_def ws_send_def

lemma parse_message_field: "field m k = JStr x \<Longrightarrow> parse_message (Json m) = Inr m"
  by (auto simp: parse_message_def)

lemma ws_is_open_frame [simp]:
  "ws_is_open (s\<lparr>console := c\<rparr>) = ws_is_open s"
  "ws_is_open (s\<lparr>emitted := e\<rparr>) = ws_is_open s"
  "ws_is_open (s\<lparr>connected := b\<rparr>) = ws_is_open s"
  "ws_is_open (s\<lparr>requestId := n\<rparr>) = ws_is_open s"
  "ws_is_open (s\<lparr>calls := cs\<rparr>) = ws_is_open s"
  "ws_is_open (s\<lparr>timers := ts\<rparr>) = ws_is_open s"
  "ws_is_open (s\<lparr>timerSeq := q\<rparr>) = ws_is_open s"
  "ws_is_open (s\<lparr>reconnectTimer := r\<rparr>) = ws_is_open s"
  by (simp_all add: ws_is_open_def socket_at_def split: option.splits)

lemma isConnected_frame [simp]:
  "isConnected (s\<lparr>console := c\<rparr>) = isConnected s"
  "isConnected (s\<lparr>emitted := e\<rparr>) = isConnected s"
  "isConnected (s\<lparr>requestId := n\<rparr>) = isConnected s"
  "isConnected (s\<lparr>calls := cs\<rparr>) = isConnected s"
  "isConnected (s\<lparr>timers := ts\<rparr>) = isConnected s"
  "isConnected (s\<lparr>timerSeq := q\<rparr>) = isConnected s"
  "isConnected (s\<lparr>reconnectTimer := r\<rparr>) = isConnected s"
  by (simp_all add: isConnected_def)

lemma ws_close_not_open [simp]: "\<not> ws_is_open (ws_close s)"
  by (simp add: ws_defs env_defs split: option.splits)

lemma foldl_frame:
  assumes "\<And>s h. f (g s h) = f s"
  shows "f (foldl g s hs) = f s"
  by (induction hs arbitrary: s) (simp_all add: assms)

lemma run_handler_simps [simp]:
  "run_handler data now s MainHandler = on_message s data now"
  "run_handler data now s (CallHandler k) = call_handler s k data"
  by (simp_all add: run_handler_def)

lemma emitted_settle [simp]: "emitted (settle s k v) = emitted s"
  by (simp add: settle_def)

lemma emitted_ws_off [simp]: "emitted (ws_off s h) = emitted s"
  by (simp add: ws_off_def sock_off_def map_socket_def split: option.splits)

lemma emitted_call_handler [simp]: "emitted (call_handler s k data) = emitted s"
  by (simp add: call_handler_def Let_def split: option.splits sum.splits)

lemma emitted_sendRequest [simp]: "emitted (sendRequest s meth params) = emitted s"
  by (simp add: sendRequest_def Let_def ws_send_def sock_send_def map_socket_def split: option.splits)

lemma calls_ws_off [simp]: "calls (ws_off s h) = calls s"
  by (simp add: ws_off_def sock_off_def map_socket_def split: option.splits)

lemma console_settle [simp]: "console (settle s k v) = console s"
  by (simp add: settle_def)

lemma console_ws_off [simp]: "console (ws_off s h) = console s"
  by (simp add: ws_off_def sock_off_def map_socket_def split: option.splits)

lemma transport_view_settle [simp]: "transport_view (settle s k v) = transport_view s"
  by (simp add: transport_view_def settle_def)

lemma transport_view_ws_off [simp]: "transport_view (ws_off s h) = transport_view s"
  by (auto simp: transport_view_def ws_off_def sock_off_def map_socket_def map_update
      list_eq_iff_nth_eq nth_list_update split: option.splits)

lemma device_nonce:
  "field (field (connect_params s c) ''device'') ''nonce'' = js_or (opt_field c ''nonce'') (JStr [])"
  by (simp add: connect_params_def)

subsection \<open>Requests that are not sent\<close>

text \<open>
  C10. When \<open>this.ws\<close> is not open, \<open>sendRequest\<close> returns the client as it was:
  nothing is sent, nothing is reported, not even the request counter moves. A
  \<open>connect.challenge\<close> handled in such a state only writes its two console lines: the
  handshake request is dropped, with no notification and no timer for a retry.
\<close>

theorem sendRequest_not_open:
  assumes "\<not> ws_is_open s"
  shows "sendRequest s meth params = s \<and>
         (field m ''type'' = JStr ''event'' \<and> field m ''event'' = JStr ''connect.challenge'' \<longrightarrow>
            on_message s (Json m) now =
              s\<lparr>console := console s @
                   [Log ''Gateway message:'' [JStr ''event'', JStr ''connect.challenge''],
                    Log ''Received challenge, sending connect with nonce...'' []]\<rparr>)"
  using assms
  by (auto simp: sendRequest_def on_message_def console_log_def js_or_def Let_def
      parse_message_field)

text \<open>
  The state of the witness: \<open>connect\<close> was called twice before the first socket
  opened, so the challenge on the first socket finds \<open>this.ws\<close> still connecting.
\<close>

theorem sendRequest_not_open_witness:
  "\<not> ws_is_open (run client0 [ApiConnect, ApiConnect, WsOpen 0]) \<and>
   sendRequest (run client0 [ApiConnect, ApiConnect, WsOpen 0]) ''connect'' JNull =
     run client0 [ApiConnect, ApiConnect, WsOpen 0] \<and>
   on_message (run client0 [ApiConnect, ApiConnect, WsOpen 0]) (Json (challenge ''abc'')) 5 =
     (run client0 [ApiConnect, ApiConnect, WsOpen 0])
       \<lparr>console := console (run client0 [ApiConnect, ApiConnect, WsOpen 0]) @
          [Log ''Gateway message:'' [JStr ''event'', JStr ''connect.challenge''],
           Log ''Received challenge, sending connect with nonce...'' []]\<rparr>"
proof -
  have closed: "\<not> ws_is_open (run client0 [ApiConnect, ApiConnect, WsOpen 0])"
    by code_simp
  show ?thesis
    using closed
      sendRequest_not_open [OF closed, of "''connect''" JNull "challenge ''abc''" 5]
    by (simp add: challenge_def)
qed

subsection \<open>The close of a transport\<close>

text \<open>
  C1, as the code has it. When a socket that is not yet closed raises \<open>close\<close>, the
  socket is closed, the client clears \<open>connected\<close> (so \<open>isConnected\<close> is false) and
  emits \<open>disconnected\<close>. The close does not reject the pending calls: every call,
  pending or settled, is after the close what it was before.
\<close>

theorem close_leaves_calls:
  assumes "i < length (sockets s)" and "readyState (sockets s ! i) \<noteq> CLOSED"
  shows "connected (step s (WsClose i)) = False \<and>
         \<not> isConnected (step s (WsClose i)) \<and>
         readyState (sockets (step s (WsClose i)) ! i) = CLOSED \<and>
         emitted (step s (WsClose i)) = emitted s @ [Emit (JStr ''disconnected'') NoArg] \<and>
         calls (step s (WsClose i)) = calls s"
  using assms
  by (simp add: on_close_def scheduleReconnect_def isConnected_def env_defs split: option.splits)

theorem close_leaves_calls_witness:
  "0 < length (sockets (run client0 (handshake @ [ApiCall ''cron.list'' (JObj [])]))) \<and>
   readyState (sockets (run client0 (handshake @ [ApiCall ''cron.list'' (JObj [])])) ! 0) \<noteq> CLOSED \<and>
   connected (step (run client0 (handshake @ [ApiCall ''cron.list'' (JObj [])])) (WsClose 0)) = False \<and>
   \<not> isConnected (step (run client0 (handshake @ [ApiCall ''cron.list'' (JObj [])])) (WsClose 0)) \<and>
   emitted (step (run client0 (handshake @ [ApiCall ''cron.list'' (JObj [])])) (WsClose 0)) =
     emitted (run client0 (handshake @ [ApiCall ''cron.list'' (JObj [])])) @
       [Emit (JStr ''disconnected'') NoArg] \<and>
   calls (step (run client0 (handshake @ [ApiCall ''cron.list'' (JObj [])])) (WsClose 0)) =
     calls (run client0 (handshake @ [ApiCall ''cron.list'' (JObj [])]))"
proof -
  have a: "0 < length (sockets (run client0 (handshake @ [ApiCall ''cron.list'' (JObj [])])))"
    by code_simp
  have b: "readyState (sockets (run client0 (handshake @ [ApiCall ''cron.list'' (JObj [])])) ! 0) \<noteq> CLOSED"
    by code_simp
  note r = close_leaves_calls [OF a b]
  show ?thesis
    by (intro conjI a b r [THEN conjunct1] r [THEN conjunct2, THEN conjunct1]
          r [THEN conjunct2, THEN conjunct2, THEN conjunct2, THEN conjunct1]
          r [THEN conjunct2, THEN conjunct2, THEN conjunct2, THEN conjunct2])
qed

text \<open>
  C1 as stated fails: a call made after the handshake is pending, the socket closes,
  and the promise is still pending, not rejected.
\<close>

theorem close_counterexample:
  "outcome (calls (run client0 (handshake @ [ApiCall ''cron.list'' (JObj [])])) ! 0) = Pending \<and>
   outcome (calls (run client0 (handshake @ [ApiCall ''cron.list'' (JObj []), WsClose 0])) ! 0) = Pending"
  by code_simp

subsection \<open>The response to the handshake request\<close>

text \<open>
  C7, as the code has it. A \<open>res\<close> for \<open>connect\<close> whose \<open>ok\<close> is falsy is written to
  the console and \<open>this.ws\<close> is closed. Nothing is emitted and \<open>connected\<close> is not
  set, so \<open>isConnected\<close> is false afterwards; the \<open>close\<close> event of that socket then
  clears \<open>connected\<close> and emits \<open>disconnected\<close>.
\<close>

theorem handshake_rejected:
  assumes "field m ''type'' = JStr ''res''" and "field m ''method'' = JStr ''connect''"
    and "\<not> truthy (field m ''ok'')"
  shows "on_message s (Json m) now =
           ws_close (console_error
             (console_log s ''Gateway message:'' [JStr ''res'', js_or (field m ''event'') (JStr ''connect'')])
             ''Gateway handshake failed:'' (field m ''error'')) \<and>
         emitted (on_message s (Json m) now) = emitted s \<and>
         connected (on_message s (Json m) now) = connected s \<and>
         \<not> isConnected (on_message s (Json m) now) \<and>
         (\<forall>i. ws s = Some i \<and> i < length (sockets s) \<longrightarrow>
            readyState (sockets (on_message s (Json m) now) ! i) =
              (if readyState (sockets s ! i) = CLOSED then CLOSED else CLOSING)) \<and>
         (\<forall>i. ws s = Some i \<and> i < length (sockets s) \<and> readyState (sockets s ! i) \<noteq> CLOSED \<longrightarrow>
            connected (step (on_message s (Json m) now) (WsClose i)) = False \<and>
            emitted (step (on_message s (Json m) now) (WsClose i)) =
              emitted s @ [Emit (JStr ''disconnected'') NoArg])"
proof -
  have nn: "parse_message (Json m) = Inr m"
    using assms(1) by (rule parse_message_field)
  have eq: "on_message s (Json m) now =
           ws_close (console_error
             (console_log s ''Gateway message:'' [JStr ''res'', js_or (field m ''event'') (JStr ''connect'')])
             ''Gateway handshake failed:'' (field m ''error''))"
    using assms nn by (simp add: on_message_def Let_def)
  let ?s1 = "console_error
             (console_log s ''Gateway message:'' [JStr ''res'', js_or (field m ''event'') (JStr ''connect'')])
             ''Gateway handshake failed:'' (field m ''error'')"
  have a: "emitted (ws_close ?s1) = emitted s" "connected (ws_close ?s1) = connected s"
    by (simp_all add: ws_close_def env_defs split: option.splits)
  have b: "\<not> isConnected (ws_close ?s1)"
    by (simp add: isConnected_def)
  have c: "\<forall>i. ws s = Some i \<and> i < length (sockets s) \<longrightarrow>
            readyState (sockets (ws_close ?s1) ! i) =
              (if readyState (sockets s ! i) = CLOSED then CLOSED else CLOSING)"
    by (simp add: ws_close_def env_defs)
  have d: "\<forall>i. ws s = Some i \<and> i < length (sockets s) \<and> readyState (sockets s ! i) \<noteq> CLOSED \<longrightarrow>
            connected (step (ws_close ?s1) (WsClose i)) = False \<and>
            emitted (step (ws_close ?s1) (WsClose i)) =
              emitted s @ [Emit (JStr ''disconnected'') NoArg]"
    by (simp add: ws_close_def on_close_def scheduleReconnect_def env_defs split: option.splits)
  show ?thesis
    unfolding eq by (intro conjI refl a b c d)
qed

text \<open>
  The state of the witness: the socket is open and the challenge has been answered,
  so the rejected handshake finds \<open>this.ws\<close> open and closes it; the socket then
  raises \<open>close\<close>.
\<close>

theorem handshake_rejected_witness:
  "field (connect_res False (JStr ''denied'')) ''type'' = JStr ''res'' \<and>
   field (connect_res False (JStr ''denied'')) ''method'' = JStr ''connect'' \<and>
   \<not> truthy (field (connect_res False (JStr ''denied'')) ''ok'') \<and>
   (ws (run client0 [ApiConnect, WsOpen 0, WsMessage 0 (Json (challenge ''abc'')) 1]) = Some 0 \<and>
    0 < length (sockets (run client0 [ApiConnect, WsOpen 0, WsMessage 0 (Json (challenge ''abc'')) 1])) \<and>
    readyState (sockets (run client0 [ApiConnect, WsOpen 0,
       WsMessage 0 (Json (challenge ''abc'')) 1]) ! 0) = OPEN) \<and>
   emitted (on_message (run client0 [ApiConnect, WsOpen 0, WsMessage 0 (Json (challenge ''abc'')) 1])
      (Json (connect_res False (JStr ''denied''))) 2) =
     emitted (run client0 [ApiConnect, WsOpen 0, WsMessage 0 (Json (challenge ''abc'')) 1]) \<and>
   \<not> isConnected (on_message (run client0 [ApiConnect, WsOpen 0,
      WsMessage 0 (Json (challenge ''abc'')) 1]) (Json (connect_res False (JStr ''denied''))) 2) \<and>
   readyState (sockets (on_message (run client0 [ApiConnect, WsOpen 0,
      WsMessage 0 (Json (challenge ''abc'')) 1]) (Json (connect_res False (JStr ''denied''))) 2) ! 0) =
     CLOSING \<and>
   connected (step (on_message (run client0 [ApiConnect, WsOpen 0,
      WsMessage 0 (Json (challenge ''abc'')) 1]) (Json (connect_res False (JStr ''denied''))) 2)
      (WsClose 0)) = False \<and>
   emitted (step (on_message (run client0 [ApiConnect, WsOpen 0,
      WsMessage 0 (Json (challenge ''abc'')) 1]) (Json (connect_res False (JStr ''denied''))) 2)
      (WsClose 0)) =
     emitted (run client0 [ApiConnect, WsOpen 0, WsMessage 0 (Json (challenge ''abc'')) 1]) @
       [Emit (JStr ''disconnected'') NoArg]"
proof -
  let ?S = "run client0 [ApiConnect, WsOpen 0, WsMessage 0 (Json (challenge ''abc'')) 1]"
  let ?m = "connect_res False (JStr ''denied'')"
  have a: "field ?m ''type'' = JStr ''res''"
    and b: "field ?m ''method'' = JStr ''connect''"
    and c: "\<not> truthy (field ?m ''ok'')"
    by (simp_all add: connect_res_def)
  have d: "ws ?S = Some 0" and e: "0 < length (sockets ?S)"
    and f: "readyState (sockets ?S ! 0) = OPEN"
    by code_simp+
  note r = handshake_rejected [OF a b c, of ?S 2]
  have g: "readyState (sockets (on_message ?S (Json ?m) 2) ! 0) = CLOSING"
    using r [THEN conjunct2, THEN conjunct2, THEN conjunct2, THEN conjunct2, THEN conjunct1,
        rule_format, of 0] d e f
    by simp
  have h: "connected (step (on_message ?S (Json ?m) 2) (WsClose 0)) = False \<and>
           emitted (step (on_message ?S (Json ?m) 2) (WsClose 0)) =
             emitted ?S @ [Emit (JStr ''disconnected'') NoArg]"
    using d e f
    by (intro r [THEN conjunct2, THEN conjunct2, THEN conjunct2, THEN conjunct2, THEN conjunct2,
          rule_format, of 0]) simp
  show ?thesis
    by (intro conjI a b c d e f g h [THEN conjunct1] h [THEN conjunct2]
          r [THEN conjunct2, THEN conjunct1]
          r [THEN conjunct2, THEN conjunct2, THEN conjunct2, THEN conjunct1])
qed

text \<open>
  C7 as stated fails: after a rejected handshake no \<open>error\<close> notification, and no
  notification at all, has been emitted.
\<close>

theorem handshake_rejected_counterexample:
  "emitted (run client0 [ApiConnect, WsOpen 0, WsMessage 0 (Json (challenge ''abc'')) 1,
      WsMessage 0 (Json (connect_res False (JStr ''denied''))) 2]) = []"
  by code_simp

text \<open>
  C8, as the code has it. A \<open>res\<close> for \<open>connect\<close> whose \<open>ok\<close> is truthy sets
  \<open>connected\<close> and emits \<open>connected\<close> once, whatever the state: one such response fires
  the notification once, and a second one fires it again. Sockets, calls and timers
  stay as they are.
\<close>

theorem connect_response_ok:
  assumes "field m ''type'' = JStr ''res''" and "field m ''method'' = JStr ''connect''"
    and "truthy (field m ''ok'')"
  shows "connected (on_message s (Json m) now) = True \<and>
         emitted (on_message s (Json m) now) = emitted s @ [Emit (JStr ''connected'') NoArg] \<and>
         emitted (on_message (on_message s (Json m) now) (Json m) now') =
           emitted s @ [Emit (JStr ''connected'') NoArg, Emit (JStr ''connected'') NoArg] \<and>
         sockets (on_message s (Json m) now) = sockets s \<and>
         ws (on_message s (Json m) now) = ws s \<and>
         calls (on_message s (Json m) now) = calls s \<and>
         timers (on_message s (Json m) now) = timers s"
proof -
  have nn: "parse_message (Json m) = Inr m"
    using assms(1) by (rule parse_message_field)
  show ?thesis using assms nn by (simp add: on_message_def Let_def env_defs)
qed

theorem connect_response_ok_witness:
  "field (connect_res True JUndefined) ''type'' = JStr ''res'' \<and>
   field (connect_res True JUndefined) ''method'' = JStr ''connect'' \<and>
   truthy (field (connect_res True JUndefined) ''ok'') \<and>
   connected (on_message client0 (Json (connect_res True JUndefined)) 2) = True \<and>
   emitted (on_message client0 (Json (connect_res True JUndefined)) 2) =
     emitted client0 @ [Emit (JStr ''connected'') NoArg]"
proof -
  have a: "field (connect_res True JUndefined) ''type'' = JStr ''res''"
    and b: "field (connect_res True JUndefined) ''method'' = JStr ''connect''"
    and c: "truthy (field (connect_res True JUndefined) ''ok'')"
    by (simp_all add: connect_res_def)
  note r = connect_response_ok [OF a b c, of client0 2]
  show ?thesis
    by (intro conjI a b c r [THEN conjunct1] r [THEN conjunct2, THEN conjunct1])
qed

text \<open>
  C8 as stated fails: a second \<open>connect\<close> response after the handshake is not dropped,
  \<open>connected\<close> has been emitted twice.
\<close>

theorem connect_response_ok_counterexample:
  "emitted (run client0 (handshake @ [WsMessage 0 (Json (connect_res True JUndefined)) 3])) =
     [Emit (JStr ''connected'') NoArg, Emit (JStr ''connected'') NoArg]"
  by code_simp

subsection \<open>Reconnecting\<close>

text \<open>
  C3 on the code. After a handshake the application calls \<open>disconnect\<close>: no timer is
  armed. The socket that \<open>disconnect\<close> closed then raises \<open>close\<close>, and the callback
  arms a reconnect timer; when it fires, \<open>connect\<close> opens a second socket.
\<close>

theorem reconnect_after_disconnect:
  "timers (run client0 (handshake @ [ApiDisconnect])) = [] \<and>
   timers (run client0 (handshake @ [ApiDisconnect, WsClose 0])) = [(0, Reconnect, 2000)] \<and>
   ws (run client0 (handshake @ [ApiDisconnect, WsClose 0, TimerFires 0])) = Some 1 \<and>
   map readyState (sockets (run client0 (handshake @ [ApiDisconnect, WsClose 0, TimerFires 0]))) =
     [CLOSED, CONNECTING]"
  by code_simp

text \<open>
  C4 on the code. The first close arms a reconnect timer, the timer fires and the
  second socket opens; when that one closes, \<open>reconnectTimer\<close> still holds the handle
  of the timer that fired, and no timer is armed: nothing will call \<open>connect\<close> again.
\<close>

theorem no_retry_after_first_reconnect:
  "timers (run client0 [ApiConnect, WsOpen 0, WsClose 0]) = [(0, Reconnect, 2000)] \<and>
   timers (run client0 [ApiConnect, WsOpen 0, WsClose 0, TimerFires 0, WsOpen 1, WsClose 1]) = [] \<and>
   reconnectTimer (run client0 [ApiConnect, WsOpen 0, WsClose 0, TimerFires 0, WsOpen 1, WsClose 1]) = Some 0 \<and>
   map readyState (sockets (run client0 [ApiConnect, WsOpen 0, WsClose 0, TimerFires 0, WsOpen 1, WsClose 1])) =
     [CLOSED, CLOSED]"
  by code_simp

subsection \<open>The challenge\<close>

text \<open>
  C9, as the code has it. A \<open>connect.challenge\<close> event is never forwarded: neither
  the connection's own callback nor any other listener of the socket emits anything.
  It is answered through \<open>sendRequest\<close>: when \<open>this.ws\<close> is open, exactly one
  \<open>connect\<close> request is appended to what was sent on \<open>this.ws\<close> and nothing else
  changes on any socket; when \<open>this.ws\<close> is not open, no socket changes at all. The
  request's device nonce is the nonce of the challenge whenever that is a string.
\<close>

theorem challenge_consumed:
  assumes "field m ''type'' = JStr ''event''" and "field m ''event'' = JStr ''connect.challenge''"
  shows "emitted (on_message s (Json m) now) = emitted s \<and>
         emitted (step s (WsMessage i (Json m) now)) = emitted s \<and>
         (\<forall>j. ws s = Some j \<and> ws_is_open s \<longrightarrow>
            sockets (on_message s (Json m) now) =
              (sockets s)[j := (sockets s ! j)\<lparr>sent := sent (sockets s ! j) @
                 [request (req_name (requestId s)) ''connect''
                    (connect_params s (field m ''payload''))]\<rparr>]) \<and>
         (\<not> ws_is_open s \<longrightarrow> sockets (on_message s (Json m) now) = sockets s) \<and>
         (\<forall>n. field (field m ''payload'') ''nonce'' = JStr n \<longrightarrow>
            field (field (connect_params s (field m ''payload'')) ''device'') ''nonce'' = JStr n)"
proof -
  have nn: "parse_message (Json m) = Inr m"
    using assms(1) by (rule parse_message_field)
  have eq: "on_message s (Json m) now =
      sendRequest
        (s\<lparr>console := console s @
             [Log ''Gateway message:'' [JStr ''event'', JStr ''connect.challenge''],
              Log ''Received challenge, sending connect with nonce...'' []]\<rparr>)
        ''connect'' (connect_params s (field m ''payload''))" for s
    using assms nn
    by (simp add: on_message_def Let_def console_log_def js_or_def connect_params_def)
  have a: "emitted (on_message s (Json m) now) = emitted s" for s
    by (simp add: eq)
  have "emitted (run_handler (Json m) now s h) = emitted s" for s h
    by (cases h) (simp_all add: run_handler_def a)
  then have b: "emitted (step s (WsMessage i (Json m) now)) = emitted s"
    by (simp add: deliver_def foldl_frame [where f = emitted] split: option.splits)
  have c: "\<forall>j. ws s = Some j \<and> ws_is_open s \<longrightarrow>
            sockets (on_message s (Json m) now) =
              (sockets s)[j := (sockets s ! j)\<lparr>sent := sent (sockets s ! j) @
                 [request (req_name (requestId s)) ''connect''
                    (connect_params s (field m ''payload''))]\<rparr>]"
    by (auto simp: eq sendRequest_def Let_def ws_defs env_defs split: option.splits if_splits)
  have d: "\<not> ws_is_open s \<longrightarrow> sockets (on_message s (Json m) now) = sockets s"
    by (simp add: eq sendRequest_def)
  have e: "\<forall>n. field (field m ''payload'') ''nonce'' = JStr n \<longrightarrow>
            field (field (connect_params s (field m ''payload'')) ''device'') ''nonce'' = JStr n"
    by (auto simp: device_nonce js_or_def opt_field_def)
  show ?thesis
    by (intro conjI a b c d e)
qed

theorem challenge_consumed_witness:
  "field (challenge ''abc'') ''type'' = JStr ''event'' \<and>
   field (challenge ''abc'') ''event'' = JStr ''connect.challenge'' \<and>
   (ws (run client0 [ApiConnect, WsOpen 0]) = Some 0 \<and>
    ws_is_open (run client0 [ApiConnect, WsOpen 0])) \<and>
   field (field (challenge ''abc'') ''payload'') ''nonce'' = JStr ''abc'' \<and>
   emitted (step (run client0 [ApiConnect, WsOpen 0]) (WsMessage 0 (Json (challenge ''abc'')) 1)) =
     emitted (run client0 [ApiConnect, WsOpen 0]) \<and>
   sockets (on_message (run client0 [ApiConnect, WsOpen 0]) (Json (challenge ''abc'')) 1) =
     (sockets (run client0 [ApiConnect, WsOpen 0]))
       [0 := (sockets (run client0 [ApiConnect, WsOpen 0]) ! 0)
          \<lparr>sent := sent (sockets (run client0 [ApiConnect, WsOpen 0]) ! 0) @
             [request (req_name (requestId (run client0 [ApiConnect, WsOpen 0]))) ''connect''
                (connect_params (run client0 [ApiConnect, WsOpen 0])
                   (field (challenge ''abc'') ''payload''))]\<rparr>] \<and>
   field (field (connect_params (run client0 [ApiConnect, WsOpen 0])
            (field (challenge ''abc'') ''payload'')) ''device'') ''nonce'' = JStr ''abc''"
proof -
  have a: "field (challenge ''abc'') ''type'' = JStr ''event''"
    and b: "field (challenge ''abc'') ''event'' = JStr ''connect.challenge''"
    and c: "field (field (challenge ''abc'') ''payload'') ''nonce'' = JStr ''abc''"
    by (simp_all add: challenge_def)
  have d: "ws (run client0 [ApiConnect, WsOpen 0]) = Some 0 \<and>
           ws_is_open (run client0 [ApiConnect, WsOpen 0])"
    by code_simp
  note r = challenge_consumed [OF a b, of "run client0 [ApiConnect, WsOpen 0]" 1 0]
  show ?thesis
    by (intro conjI a b c d [THEN conjunct1] d [THEN conjunct2]
          r [THEN conjunct2, THEN conjunct1]
          r [THEN conjunct2, THEN conjunct2, THEN conjunct1, rule_format, OF d]
          r [THEN conjunct2, THEN conjunct2, THEN conjunct2, THEN conjunct2, rule_format, OF c])
qed

text \<open>
  C9 as stated fails: \<open>connect\<close> was called twice before the first socket opened,
  the challenge arrives on the first socket, and nothing has been sent on either.
\<close>

theorem challenge_counterexample:
  "map sent (sockets (run client0 [ApiConnect, ApiConnect, WsOpen 0,
      WsMessage 0 (Json (challenge ''abc'')) 1])) = [[], []]"
  by code_simp

subsection \<open>Malformed messages\<close>

lemma parse_failure_on_message:
  "parse_message data = Inl e \<Longrightarrow>
   on_message s data now =
     s\<lparr>console := console s @ [LogException ''Failed to parse Gateway message:'' e]\<rparr>"
  by (simp add: on_message_def console_error_exn_def)

lemma parse_failure_call_handler:
  "parse_message data = Inl e \<Longrightarrow>
   call_handler s k data =
     (if k < length (calls s) \<and> call_id (calls s ! k) \<noteq> None
      then settle (ws_off s (CallHandler k)) k (Rejected e) else s)"
  by (auto simp: call_handler_def split: option.splits)

lemma fold_malformed_calls:
  assumes "parse_message data = Inl e"
  shows "length (calls (foldl (run_handler data now) s hs)) = length (calls s) \<and>
         (\<forall>k<length (calls s).
            calls (foldl (run_handler data now) s hs) ! k =
              (if CallHandler k \<in> set hs \<and> call_id (calls s ! k) \<noteq> None \<and>
                  outcome (calls s ! k) = Pending
               then (calls s ! k)\<lparr>outcome := Rejected e\<rparr> else calls s ! k))"
proof (induction hs rule: rev_induct)
  case Nil
  show ?case by simp
next
  case (snoc h hs)
  show ?case
  proof (cases h)
    case MainHandler
    with snoc show ?thesis
      by (simp add: parse_failure_on_message [OF assms])
  next
    case (CallHandler j)
    with snoc show ?thesis
      by (auto simp: parse_failure_call_handler [OF assms] settle_def nth_list_update)
  qed
qed

lemma transport_view_malformed:
  assumes "parse_message data = Inl e"
  shows "transport_view (run_handler data now s h) = transport_view s"
proof (cases h)
  case MainHandler
  then show ?thesis
    by (simp add: parse_failure_on_message [OF assms] transport_view_def)
next
  case (CallHandler k)
  then show ?thesis
    by (simp add: parse_failure_call_handler [OF assms])
qed

lemma fold_malformed_console:
  assumes "parse_message data = Inl e"
  shows "console (foldl (run_handler data now) s hs) =
           console s @ map (\<lambda>h. LogException ''Failed to parse Gateway message:'' e)
                         (filter (\<lambda>h. h = MainHandler) hs)"
proof (induction hs rule: rev_induct)
  case Nil
  show ?case by simp
next
  case (snoc h hs)
  then show ?case
    by (cases h)
      (simp_all add: parse_failure_on_message [OF assms] parse_failure_call_handler [OF assms])
qed

text \<open>
  C5, as the code has it. A message on which \<open>JSON.parse\<close> or the first property
  read throws is written to the console by the connection's callback, which changes
  nothing else. Through the whole delivery the transport side of the client stays as
  it was: no socket is closed, nothing is sent or emitted, no timer changes. The calls
  are not left alone, though: every call whose callback listens on that socket and
  whose promise is pending is rejected with the error that was caught; all other
  calls keep their state.
\<close>

theorem malformed_message:
  assumes "parse_message data = Inl e"
    and "i < length (sockets s)"
    and "readyState (sockets s ! i) = OPEN \<or> readyState (sockets s ! i) = CLOSING"
  shows "on_message s data now =
           s\<lparr>console := console s @ [LogException ''Failed to parse Gateway message:'' e]\<rparr> \<and>
         console (step s (WsMessage i data now)) =
           console s @ map (\<lambda>h. LogException ''Failed to parse Gateway message:'' e)
                         (filter (\<lambda>h. h = MainHandler) (listeners (sockets s ! i))) \<and>
         transport_view (step s (WsMessage i data now)) = transport_view s \<and>
         length (calls (step s (WsMessage i data now))) = length (calls s) \<and>
         (\<forall>k<length (calls s).
            calls (step s (WsMessage i data now)) ! k =
              (if CallHandler k \<in> set (listeners (sockets s ! i)) \<and>
                  call_id (calls s ! k) \<noteq> None \<and> outcome (calls s ! k) = Pending
               then (calls s ! k)\<lparr>outcome := Rejected e\<rparr> else calls s ! k))"
proof -
  have eq: "step s (WsMessage i data now) =
              foldl (run_handler data now) s (listeners (sockets s ! i))"
    using assms(2,3) by (auto simp: deliver_def socket_at_def)
  show ?thesis
    unfolding eq
    using fold_malformed_calls [OF assms(1), of now s "listeners (sockets s ! i)"]
    by (intro conjI parse_failure_on_message [OF assms(1)] fold_malformed_console [OF assms(1)]
          foldl_frame [where f = transport_view, OF transport_view_malformed [OF assms(1)]])
       simp_all
qed

theorem malformed_message_witness:
  "parse_message NotJson = Inl SyntaxError \<and>
   0 < length (sockets (run client0 (handshake @ [ApiCall ''cron.list'' (JObj [])]))) \<and>
   (readyState (sockets (run client0 (handshake @ [ApiCall ''cron.list'' (JObj [])])) ! 0) = OPEN \<or>
    readyState (sockets (run client0 (handshake @ [ApiCall ''cron.list'' (JObj [])])) ! 0) = CLOSING) \<and>
   transport_view (step (run client0 (handshake @ [ApiCall ''cron.list'' (JObj [])]))
       (WsMessage 0 NotJson 3)) =
     transport_view (run client0 (handshake @ [ApiCall ''cron.list'' (JObj [])])) \<and>
   calls (step (run client0 (handshake @ [ApiCall ''cron.list'' (JObj [])])) (WsMessage 0 NotJson 3)) ! 0 =
     \<lparr>call_id = Some ''call-1'', outcome = Rejected SyntaxError\<rparr>"
proof -
  let ?S = "run client0 (handshake @ [ApiCall ''cron.list'' (JObj [])])"
  have a: "parse_message NotJson = Inl SyntaxError"
    by (simp add: parse_message_def)
  have b: "0 < length (sockets ?S)"
    by code_simp
  have c: "readyState (sockets ?S ! 0) = OPEN \<or> readyState (sockets ?S ! 0) = CLOSING"
    by code_simp
  have d: "0 < length (calls ?S)"
    by code_simp
  have e: "(if CallHandler 0 \<in> set (listeners (sockets ?S ! 0)) \<and>
               call_id (calls ?S ! 0) \<noteq> None \<and> outcome (calls ?S ! 0) = Pending
            then (calls ?S ! 0)\<lparr>outcome := Rejected SyntaxError\<rparr> else calls ?S ! 0) =
           \<lparr>call_id = Some ''call-1'', outcome = Rejected SyntaxError\<rparr>"
    by code_simp
  note r = malformed_message [OF a b c, of 3]
  have f: "calls (step ?S (WsMessage 0 NotJson 3)) ! 0 =
             \<lparr>call_id = Some ''call-1'', outcome = Rejected SyntaxError\<rparr>"
    using r [THEN conjunct2, THEN conjunct2, THEN conjunct2, THEN conjunct2, rule_format, OF d]
    by (simp only: e)
  show ?thesis
    by (intro conjI a b c f r [THEN conjunct2, THEN conjunct2, THEN conjunct1])
qed

text \<open>
  C5 as stated fails: a call is pending, a buffer that is not JSON arrives, and the
  promise is rejected with the syntax error.
\<close>

theorem malformed_message_counterexample:
  "outcome (calls (run client0 (handshake @ [ApiCall ''cron.list'' (JObj [])])) ! 0) = Pending \<and>
   outcome (calls (run client0 (handshake @ [ApiCall ''cron.list'' (JObj []),
      WsMessage 0 NotJson 3])) ! 0) = Rejected SyntaxError"
  by code_simp

subsection \<open>Correlation ids are rendered injectively\<close>

lemma digit_inj:
  assumes "a < 10" and "b < 10" and "''0123456789'' ! a = ''0123456789'' ! b"
  shows "a = b"
proof -
  have "distinct ''0123456789''" by simp
  moreover have "a < length ''0123456789''" "b < length ''0123456789''"
    using assms by simp_all
  ultimately show ?thesis
    using assms(3) nth_eq_iff_index_eq by blast
qed

lemma dec_small: "n < 10 \<Longrightarrow> dec n = [''0123456789'' ! n]"
  by (subst dec.simps) simp

lemma dec_big: "\<not> n < 10 \<Longrightarrow> dec n = dec (n div 10) @ [''0123456789'' ! (n mod 10)]"
  by (subst dec.simps) simp

lemma dec_nonempty [simp]: "dec n \<noteq> []" "[] \<noteq> dec n"
  by (cases "n < 10"; simp add: dec_small dec_big)+

lemma dec_inj: "dec m = dec n \<Longrightarrow> m = n"
proof (induction m arbitrary: n rule: dec.induct)
  case (1 m)
  show ?case
  proof (cases "m < 10")
    case small: True
    show ?thesis
    proof (cases "n < 10")
      case True
      with small "1.prems" show ?thesis
        by (simp add: dec_small digit_inj)
    next
      case False
      with small "1.prems" show ?thesis
        by (simp add: dec_small dec_big)
    qed
  next
    case big: False
    show ?thesis
    proof (cases "n < 10")
      case True
      with big "1.prems" show ?thesis
        by (simp add: dec_small dec_big)
    next
      case False
      with big "1.prems" have e: "dec (m div 10) = dec (n div 10)"
        and d: "''0123456789'' ! (m mod 10) = ''0123456789'' ! (n mod 10)"
        by (simp_all add: dec_big)
      from "1.IH" [OF big e] have "m div 10 = n div 10" .
      moreover have "m mod 10 = n mod 10"
        using d by (intro digit_inj) simp_all
      ultimately show ?thesis
        by (metis div_mult_mod_eq)
    qed
  qed
qed

lemma call_name_inj [simp]: "call_name m = call_name n \<longleftrightarrow> m = n"
  by (auto simp: call_name_def dest: dec_inj)

lemma post_incr_mono: "n \<le> post_incr n"
  by (simp add: post_incr_def)


subsection \<open>The delivery of a message\<close>

lemma reply_outcome_settled: "reply_outcome data ident = Some v \<Longrightarrow> v \<noteq> Pending"
  by (auto simp: reply_outcome_def split: sum.splits if_splits)

lemma call_handler_reply:
  "call_handler s k data =
     (case (if k < length (calls s) then call_id (calls s ! k) else None) of
        None \<Rightarrow> s
      | Some ident \<Rightarrow>
          (case reply_outcome data ident of
             None \<Rightarrow> s
           | Some v \<Rightarrow> settle (ws_off s (CallHandler k)) k v))"
  by (simp add: call_handler_def reply_outcome_def Let_def split: option.splits sum.splits)

lemma settled_by_refl [simp]: "settled_by data cs cs"
  by (simp add: settled_by_def)

lemma settled_by_trans:
  assumes "settled_by data a b" and "settled_by data b c"
  shows "settled_by data a c"
  unfolding settled_by_def
proof (intro conjI allI impI)
  show "length c = length a"
    using assms by (simp add: settled_by_def)
next
  fix k assume k: "k < length a"
  then have kb: "k < length b" using assms(1) by (simp add: settled_by_def)
  from assms(1) k consider "b ! k = a ! k"
    | ident v where "outcome (a ! k) = Pending" "call_id (a ! k) = Some ident"
        "reply_outcome data ident = Some v" "b ! k = (a ! k)\<lparr>outcome := v\<rparr>"
    by (auto simp: settled_by_def)
  then show "c ! k = a ! k \<or>
        (outcome (a ! k) = Pending \<and>
         (\<exists>ident v. call_id (a ! k) = Some ident \<and> reply_outcome data ident = Some v \<and>
            c ! k = (a ! k)\<lparr>outcome := v\<rparr>))"
  proof cases
    case 1
    with assms(2) kb show ?thesis by (auto simp: settled_by_def)
  next
    case 2
    then have "outcome (b ! k) \<noteq> Pending"
      by (simp add: reply_outcome_settled)
    with assms(2) kb have "c ! k = b ! k" by (auto simp: settled_by_def)
    with 2 show ?thesis by auto
  qed
qed

lemma settled_by_settle:
  assumes "k < length (calls s)" and "call_id (calls s ! k) = Some ident"
    and "reply_outcome data ident = Some v"
  shows "settled_by data (calls s) (calls (settle s k v))"
  using assms by (auto simp: settled_by_def settle_def nth_list_update)


lemma evolves_refl [simp]: "evolves data s s"
  by (simp add: evolves_def)

lemma evolves_trans:
  assumes "evolves data a b" and "evolves data b c"
  shows "evolves data a c"
proof -
  have "settled_by data (calls a) (calls c)"
    using assms by (auto simp: evolves_def intro: settled_by_trans)
  moreover have "set (listeners (sockets c ! j)) \<subseteq> set (listeners (sockets a ! j)) \<and>
        (distinct (listeners (sockets a ! j)) \<longrightarrow> distinct (listeners (sockets c ! j)))"
    if "j < length (sockets a)" for j
  proof -
    from that assms(1) have 1: "set (listeners (sockets b ! j)) \<subseteq> set (listeners (sockets a ! j))"
      "distinct (listeners (sockets a ! j)) \<longrightarrow> distinct (listeners (sockets b ! j))"
      and "j < length (sockets b)"
      by (simp_all add: evolves_def)
    with assms(2) have 2: "set (listeners (sockets c ! j)) \<subseteq> set (listeners (sockets b ! j))"
      "distinct (listeners (sockets b ! j)) \<longrightarrow> distinct (listeners (sockets c ! j))"
      by (simp_all add: evolves_def)
    from 1 2 show ?thesis by blast
  qed
  ultimately show ?thesis
    using assms by (simp add: evolves_def)
qed

lemma foldl_evolves:
  assumes "\<And>s h. evolves data s (g s h)"
  shows "evolves data s (foldl g s hs)"
proof (induction hs arbitrary: s)
  case Nil
  show ?case by simp
next
  case (Cons h hs)
  show ?case
    using assms [of s h] Cons [of "g s h"] by (auto intro: evolves_trans)
qed

lemma evolves_step:
  assumes "evolves data s t"
  shows "evolves data s (console_log t msg args)"
    and "evolves data s (console_error t msg v)"
    and "evolves data s (console_error_exn t msg e)"
    and "evolves data s (emit t channel arg)"
    and "evolves data s (t\<lparr>connected := b\<rparr>)"
    and "evolves data s (ws_close t)"
    and "evolves data s (sendRequest t meth params)"
proof -
  have "evolves data t (console_log t msg args)" "evolves data t (console_error t msg v)"
    "evolves data t (console_error_exn t msg e)" "evolves data t (emit t channel arg)"
    "evolves data t (t\<lparr>connected := b\<rparr>)"
    by (simp_all add: evolves_def env_defs)
  moreover have "evolves data t (ws_close t)"
    by (auto simp: evolves_def ws_close_def sock_close_def map_socket_def nth_list_update
        split: option.splits)
  moreover have "evolves data t (sendRequest t meth params)"
    by (auto simp: evolves_def sendRequest_def Let_def ws_send_def sock_send_def map_socket_def
        nth_list_update post_incr_mono split: option.splits)
  ultimately show "evolves data s (console_log t msg args)"
    and "evolves data s (console_error t msg v)"
    and "evolves data s (console_error_exn t msg e)"
    and "evolves data s (emit t channel arg)"
    and "evolves data s (t\<lparr>connected := b\<rparr>)"
    and "evolves data s (ws_close t)"
    and "evolves data s (sendRequest t meth params)"
    using assms by (blast intro: evolves_trans)+
qed

lemma evolves_on_message: "evolves data s (on_message s data now)"
  unfolding on_message_def Let_def
  by (intro evolves_step evolves_refl | split sum.split if_split | intro conjI impI allI)+

lemma off_listeners:
  "set (rev (remove1 h (rev ls))) \<subseteq> set ls"
  "distinct ls \<Longrightarrow> distinct (rev (remove1 h (rev ls)))"
  using set_remove1_subset [of h "rev ls"] by auto

lemma evolves_ws_off: "evolves data s (ws_off s h)"
  using off_listeners [where h = h]
  by (auto simp: evolves_def ws_off_def sock_off_def map_socket_def nth_list_update
      split: option.splits)

lemma evolves_settle:
  assumes "k < length (calls s)" and "call_id (calls s ! k) = Some ident"
    and "reply_outcome data ident = Some v"
  shows "evolves data s (settle s k v)"
  using settled_by_settle [OF assms] by (simp add: evolves_def settle_def)

lemma evolves_call_handler: "evolves data s (call_handler s k data)"
proof (cases "k < length (calls s)")
  case False
  then show ?thesis by (simp add: call_handler_reply)
next
  case k: True
  show ?thesis
  proof (cases "call_id (calls s ! k)")
    case None
    with k show ?thesis by (simp add: call_handler_reply)
  next
    case (Some ident)
    show ?thesis
    proof (cases "reply_outcome data ident")
      case None
      with k Some show ?thesis by (simp add: call_handler_reply)
    next
      case v: (Some v)
      have "evolves data (ws_off s (CallHandler k)) (settle (ws_off s (CallHandler k)) k v)"
        using k Some v by (intro evolves_settle [where ident = ident]) simp_all
      with evolves_ws_off [of data s "CallHandler k"] k Some v show ?thesis
        by (auto simp: call_handler_reply intro: evolves_trans)
    qed
  qed
qed

lemma evolves_run_handler: "evolves data s (run_handler data now s h)"
  by (cases h) (simp_all add: evolves_on_message evolves_call_handler)

lemma evolves_deliver: "evolves data s (deliver s i data now)"
  by (simp add: deliver_def foldl_evolves evolves_run_handler split: option.splits)





subsection \<open>Every reachable client is well-formed\<close>















lemma call_not_connected:
  "\<not> isConnected s \<Longrightarrow>
   call s meth params =
     s\<lparr>calls := calls s @
        [\<lparr>call_id = None, outcome = Rejected (Error ''Not connected to Gateway'')\<rparr>]\<rparr>"
  by (simp add: call_def)

lemma call_connected:
  assumes "isConnected s"
  shows "\<exists>i. ws s = Some i \<and> i < length (sockets s) \<and>
     call s meth params =
       s\<lparr>requestId := post_incr (requestId s),
         calls := calls s @ [\<lparr>call_id = Some (call_name (requestId s)), outcome = Pending\<rparr>],
         sockets := (sockets s)[i := (sockets s ! i)
            \<lparr>listeners := listeners (sockets s ! i) @ [CallHandler (length (calls s))],
             sent := sent (sockets s ! i) @
               [request (call_name (requestId s)) meth params]\<rparr>],
         timers := timers s @ [(timerSeq s, CallTimeout (length (calls s)), 30000)],
         timerSeq := timerSeq s + 1\<rparr>"
proof -
  from assms obtain i where i: "ws s = Some i" "i < length (sockets s)"
    by (auto simp: isConnected_def ws_is_open_def socket_at_def split: option.splits if_splits)
  show ?thesis
    using assms i
    by (intro exI [of _ i])
      (simp add: call_def Let_def ws_on_def ws_send_def sock_on_def sock_send_def map_socket_def
        set_timeout_def)
qed






lemma ws_off_proj:
  "timers (ws_off s h) = timers s" "timerSeq (ws_off s h) = timerSeq s"
  "reconnectTimer (ws_off s h) = reconnectTimer s" "requestId (ws_off s h) = requestId s"
  "ws (ws_off s h) = ws s" "calls (ws_off s h) = calls s"
  "length (sockets (ws_off s h)) = length (sockets s)"
  by (simp_all add: ws_off_def sock_off_def map_socket_def split: option.splits)







subsection \<open>How a promise settles\<close>

lemma calls_unchanged [simp]:
  "calls (connect s) = calls s"
  "calls (disconnect s) = calls s"
  "calls (step s (WsOpen i)) = calls s"
  "calls (step s (WsError i err)) = calls s"
  "calls (step s (WsClose i)) = calls s"
  "calls (reconnect_fires s) = calls s"
  "calls (clear_timeout s h) = calls s"
  by (simp_all add: connect_def disconnect_def Let_def on_open_def on_error_def on_close_def
      scheduleReconnect_def reconnect_fires_def env_defs split: option.splits)

lemma calls_call:
  "calls (call s meth params) =
     calls s @ [if isConnected s
                then \<lparr>call_id = Some (call_name (requestId s)), outcome = Pending\<rparr>
                else \<lparr>call_id = None, outcome = Rejected (Error ''Not connected to Gateway'')\<rparr>]"
proof (cases "isConnected s")
  case True
  from call_connected [OF True, of meth params] True show ?thesis by auto
next
  case False
  then show ?thesis by (simp add: call_not_connected)
qed

lemma calls_call_timeout:
  "calls (call_timeout s k) =
     (if k < length (calls s) \<and> outcome (calls s ! k) = Pending
      then (calls s)[k := (calls s ! k)\<lparr>outcome := Rejected (Error ''Gateway call timeout'')\<rparr>]
      else calls s)"
  by (simp add: call_timeout_def settle_def ws_off_proj)

lemma step_calls:
  assumes "k < length (calls s)"
  shows "k < length (calls (step s inp)) \<and>
         (calls (step s inp) ! k = calls s ! k \<or>
          outcome (calls s ! k) = Pending \<and>
          ((\<exists>i data now ident v. inp = WsMessage i data now \<and>
               call_id (calls s ! k) = Some ident \<and> reply_outcome data ident = Some v \<and>
               calls (step s inp) ! k = (calls s ! k)\<lparr>outcome := v\<rparr>) \<or>
           (\<exists>h t. inp = TimerFires h \<and> find (\<lambda>t. fst t = h) (timers s) = Some t \<and>
               fst (snd t) = CallTimeout k \<and>
               calls (step s inp) ! k =
                 (calls s ! k)\<lparr>outcome := Rejected (Error ''Gateway call timeout'')\<rparr>)))"
proof (cases inp)
  case (ApiCall meth params)
  with assms show ?thesis by (simp add: calls_call nth_append)
next
  case (WsMessage i data now)
  have "settled_by data (calls s) (calls (deliver s i data now))"
    using evolves_deliver [of data s i now] by (simp add: evolves_def)
  with assms WsMessage show ?thesis
    by (auto simp: settled_by_def)
next
  case (TimerFires h)
  show ?thesis
  proof (cases "find (\<lambda>t. fst t = h) (timers s)")
    case None
    with assms TimerFires show ?thesis by simp
  next
    case (Some t)
    show ?thesis
    proof (cases "fst (snd t)")
      case Reconnect
      with assms TimerFires Some show ?thesis
        by (simp add: run_callback_def)
    next
      case (CallTimeout j)
      show ?thesis
      proof (cases "j = k \<and> outcome (calls s ! k) = Pending")
        case True
        with assms have "calls (step s inp) ! k =
            (calls s ! k)\<lparr>outcome := Rejected (Error ''Gateway call timeout'')\<rparr>"
          "k < length (calls (step s inp))"
          using TimerFires Some CallTimeout
          by (simp_all add: run_callback_def calls_call_timeout)
        with True TimerFires Some CallTimeout show ?thesis
          by blast
      next
        case False
        with assms TimerFires Some CallTimeout show ?thesis
          by (auto simp: run_callback_def calls_call_timeout nth_list_update)
      qed
    qed
  qed
qed (use assms in \<open>simp_all del: step.simps(4,6,7)\<close>)



lemma call_id_step:
  assumes "k < length (calls s)"
  shows "call_id (calls (step s inp) ! k) = call_id (calls s ! k)"
  using step_calls [OF assms, of inp] by auto










subsection \<open>The call timer\<close>







end
